theory Spec2Isabelle
  imports Main
begin

section \<open>Python values used by \<open>ioisis/fieldutils.py\<close>\<close>

text \<open>
  \<open>SubfieldParser\<close> works on Python \<open>str\<close> and on Python \<open>bytes\<close> alike: the prefix, the
  field, every key and every value is one or the other. Both are finite sequences of
  units, a unit being a code point of a \<open>str\<close> and a byte of a \<open>bytes\<close>; a unit is written
  as a natural number. A \<open>str\<close> and a \<open>bytes\<close> never compare equal in Python and are
  different keys of a \<open>Counter\<close>, which the two constructors reproduce.
\<close>

type_synonym units = "nat list"

datatype pystr = Str units | Bytes units

text \<open>
  The exceptions of the model. \<open>TypeError\<close> is what Python raises when a \<open>str\<close> meets a
  \<open>bytes\<close> (concatenation, or a pattern applied to a field of the other type);
  \<open>ValueError\<close> is what the conversion \<open>%d\<close> raises for an integer of more than 4300
  digits; \<open>OverflowError\<close> is what \<open>re.compile\<close> raises for a repetition count of
  \<open>MAXREPEAT\<close> or more. \<open>ConfigurationError\<close> is the error the specification names;
  \<open>fieldutils.py\<close> defines no such exception and no branch below produces it.
\<close>

datatype error = TypeError | ValueError | OverflowError | ConfigurationError

text \<open>The units of an ASCII literal, for writing inputs such as \<open>ascii ''data''\<close>.\<close>

definition ascii :: "string \<Rightarrow> units" where
  "ascii s = map of_char s"

fun units_of :: "pystr \<Rightarrow> units" where
  "units_of (Str u) = u"
| "units_of (Bytes u) = u"

text \<open>\<open>isinstance(x, str)\<close>.\<close>

fun is_str :: "pystr \<Rightarrow> bool" where
  "is_str (Str u) = True"
| "is_str (Bytes u) = False"

text \<open>A sequence of units as a value of the type chosen by the flag.\<close>

fun retag :: "bool \<Rightarrow> units \<Rightarrow> pystr" where
  "retag True u = Str u"
| "retag False u = Bytes u"

text \<open>Truth value of a \<open>str\<close> or \<open>bytes\<close> in a condition: it is false exactly when empty.\<close>

fun truthy :: "pystr \<Rightarrow> bool" where
  "truthy (Str u) = (u \<noteq> [])"
| "truthy (Bytes u) = (u \<noteq> [])"

text \<open>
  \<open>key.lower()\<close>. \<open>bytes.lower\<close> maps the ASCII letters \<open>A\<close> to \<open>Z\<close> (65 to 90) to
  \<open>a\<close> to \<open>z\<close> and leaves every other byte alone. \<open>str.lower\<close> follows the Unicode case
  tables, which are part of the Python runtime and not of this repository: it is the
  parameter \<open>str_lower\<close> of every function that may call it.
\<close>

definition byte_lower :: "nat \<Rightarrow> nat" where
  "byte_lower b = (if 65 \<le> b \<and> b \<le> 90 then b + 32 else b)"

fun py_lower :: "(units \<Rightarrow> units) \<Rightarrow> pystr \<Rightarrow> pystr" where
  "py_lower str_lower (Str u) = Str (str_lower u)"
| "py_lower str_lower (Bytes u) = Bytes (map byte_lower u)"

text \<open>\<open>a + b\<close> (as in \<open>key += ...\<close>): concatenation, a \<open>TypeError\<close> across the two types.\<close>

fun py_add :: "pystr \<Rightarrow> pystr \<Rightarrow> error + pystr" where
  "py_add (Str a) (Str b) = Inr (Str (a @ b))"
| "py_add (Bytes a) (Bytes b) = Inr (Bytes (a @ b))"
| "py_add (Str a) (Bytes b) = Inl TypeError"
| "py_add (Bytes a) (Str b) = Inl TypeError"

text \<open>
  Decimal numerals: \<open>digits n\<close> are the ASCII digits of \<open>n\<close> without leading zeros (48 is
  \<open>0\<close>), \<open>show_int\<close> adds the minus sign (45) of a negative number, as the conversion
  \<open>%d\<close> does.
\<close>

fun digits :: "nat \<Rightarrow> units" where
  "digits n = (if n < 10 then [48 + n] else digits (n div 10) @ [48 + n mod 10])"

declare digits.simps [simp del]

definition show_int :: "int \<Rightarrow> units" where
  "show_int i = (if i < 0 then 45 # digits (nat (- i)) else digits (nat i))"

text \<open>
  The conversion \<open>%d\<close> of an integer, with the limit of the interpreter (CPython 3.11,
  \<open>sys.int_max_str_digits\<close>, 4300 unless changed): an integer of more than 4300 digits,
  the sign not counted, is not converted and a \<open>ValueError\<close> is raised.
\<close>

definition int_max_str_digits :: nat where
  "int_max_str_digits = 4300"

definition format_d :: "int \<Rightarrow> error + units" where
  "format_d i =
     (if int_max_str_digits < length (digits (nat \<bar>i\<bar>)) then Inl ValueError
      else Inr (show_int i))"

text \<open>
  \<open>template % i\<close> for a template whose only conversions are \<open>%d\<close> (37 is \<open>%\<close>, 100 is
  \<open>d\<close>): each \<open>%d\<close> is replaced by the numeral, in the type of the template. The only
  template this is applied to is \<open>self.percent_d\<close>, which is \<open>"%d"\<close> or \<open>b"%d"\<close>, and the
  only integers are the counts of line 78. A count is at most the number of units of
  the field, and a Python sequence has fewer than \<open>2^63\<close> units, so the limit of 4300
  digits is out of reach here and the conversion is written without it.
\<close>

fun subst_d :: "units \<Rightarrow> units \<Rightarrow> units" where
  "subst_d (a # b # t) d = (if a = 37 \<and> b = 100 then d @ subst_d t d else a # subst_d (b # t) d)"
| "subst_d t d = t"

fun py_percent :: "pystr \<Rightarrow> int \<Rightarrow> pystr" where
  "py_percent (Str t) i = Str (subst_d t (show_int i))"
| "py_percent (Bytes t) i = Bytes (subst_d t (show_int i))"

section \<open>The pattern compiled by \<open>__init__\<close> and \<open>findall\<close>\<close>

text \<open>
  \<open>__init__\<close> (lines 58 to 66) compiles, with the flag \<open>re.DOTALL\<close>, the pattern

  \<^verbatim>\<open>(?:^|PREFIX(KEY))(.*?)(?=$|PREFIXKEY)\<close>

  where \<open>PREFIX\<close> is \<open>re.escape(prefix)\<close>, which matches the units of the prefix literally,
  and \<open>KEY\<close> is the text \<open>.{%d}\<close> with \<open>length\<close> formatted into it (line 65), before
  anything is compiled.

  \<^item> For a \<open>length\<close> of more than 4300 digits, of either sign, the formatting of line 65
    raises \<open>ValueError\<close> and nothing is compiled.
  \<^item> For \<open>0 \<le> length < MAXREPEAT\<close> (\<open>MAXREPEAT\<close> is \<open>2^32 - 1\<close>) \<open>KEY\<close> is a repetition: exactly
    \<open>length\<close> units, any units, because of \<open>re.DOTALL\<close>. This is \<open>Repeat\<close>.
  \<^item> For \<open>MAXREPEAT \<le> length\<close> the parser of \<open>re\<close> raises \<open>OverflowError\<close>.
  \<^item> For \<open>length < 0\<close> the text is for instance \<open>.{-1}\<close>, where the brace is not followed by
    a digit: \<open>re\<close> then reads the brace as a literal, so \<open>KEY\<close> matches one unit, any unit,
    followed by the literal text \<open>{-1}\<close>. This is \<open>DotLit\<close> with that text.

  The compiled pattern is kept as its three components: the type of the pattern (a \<open>str\<close>
  pattern or a \<open>bytes\<close> pattern), the units of the prefix, and the key part.
\<close>

datatype keypat = Repeat nat | DotLit units

record regex =
  rx_str :: bool
  rx_prefix :: units
  rx_key :: keypat

definition MAXREPEAT :: int where
  "MAXREPEAT = 4294967295"

definition key_pattern :: "int \<Rightarrow> error + keypat" where
  "key_pattern n =
     (case format_d n of
        Inl e \<Rightarrow> Inl e
      | Inr txt \<Rightarrow>
          if n < 0 then Inr (DotLit (ascii ''{'' @ txt @ ascii ''}''))
          else if MAXREPEAT \<le> n then Inl OverflowError
          else Inr (Repeat (nat n)))"

definition re_compile :: "pystr \<Rightarrow> int \<Rightarrow> error + regex" where
  "re_compile prefix n =
     (case key_pattern n of
        Inl e \<Rightarrow> Inl e
      | Inr K \<Rightarrow> Inr \<lparr>rx_str = is_str prefix, rx_prefix = units_of prefix, rx_key = K\<rparr>)"

text \<open>
  The matcher works on the rest of the subject from the current position on. A literal
  matches when it is a prefix of that rest; the result is what follows it.
\<close>

fun strip_lit :: "units \<Rightarrow> units \<Rightarrow> units option" where
  "strip_lit [] s = Some s"
| "strip_lit (p # ps) [] = None"
| "strip_lit (p # ps) (c # s) = (if p = c then strip_lit ps s else None)"

text \<open>
  The key part has a fixed width and matches in at most one way: the result is the
  matched units (group 1) and what follows them.
\<close>

fun match_key :: "keypat \<Rightarrow> units \<Rightarrow> (units \<times> units) option" where
  "match_key (Repeat n) s = (if n \<le> length s then Some (take n s, drop n s) else None)"
| "match_key (DotLit l) [] = None"
| "match_key (DotLit l) (c # s) =
     (case strip_lit l s of None \<Rightarrow> None | Some r \<Rightarrow> Some (c # l, r))"

text \<open>
  \<open>$\<close> without \<open>re.MULTILINE\<close> matches at the end of the subject and also just before a
  newline (unit 10) that is the last unit of the subject. \<open>re.DOTALL\<close> does not change
  \<open>$\<close>.
\<close>

definition newline :: nat where
  "newline = 10"

definition at_end :: "units \<Rightarrow> bool" where
  "at_end s \<longleftrightarrow> s = [] \<or> s = [newline]"

text \<open>The lookahead \<open>(?=$|PREFIXKEY)\<close>, which consumes nothing.\<close>

definition lookahead :: "units \<Rightarrow> keypat \<Rightarrow> units \<Rightarrow> bool" where
  "lookahead P K s \<longleftrightarrow>
     at_end s \<or> (case strip_lit P s of None \<Rightarrow> False | Some r \<Rightarrow> match_key K r \<noteq> None)"

text \<open>
  The lazy group \<open>(.*?)\<close> followed by the lookahead: the group takes as few units as
  possible, trying the lookahead after each one; at the end of the subject the
  lookahead holds, so the scan always succeeds. The result is the value (group 2) and
  the rest after it.
\<close>

fun lazy_scan :: "units \<Rightarrow> keypat \<Rightarrow> units \<Rightarrow> units \<times> units" where
  "lazy_scan P K [] = ([], [])"
| "lazy_scan P K (c # s) =
     (if lookahead P K (c # s) then ([], c # s)
      else (case lazy_scan P K s of (v, r) \<Rightarrow> (c # v, r)))"

text \<open>
  The same with the rule of \<open>findall\<close> for the search that follows an empty match (Python
  3.7 and later): that search starts where the empty match was, and a match that would
  again end where it starts is refused, so the engine backtracks into the lazy group.
  When \<open>reject\<close> holds nothing has been consumed so far in this match, and the lazy group
  must take at least one unit.
\<close>

fun tail_match :: "units \<Rightarrow> keypat \<Rightarrow> bool \<Rightarrow> units \<Rightarrow> (units \<times> units) option" where
  "tail_match P K False s = Some (lazy_scan P K s)"
| "tail_match P K True [] = None"
| "tail_match P K True (c # s) = (case lazy_scan P K s of (v, r) \<Rightarrow> Some (c # v, r))"

text \<open>
  One attempt to match the whole pattern at the current position. \<open>bos\<close> says that the
  position is the beginning of the subject, the only place where \<open>^\<close> matches. The
  alternative \<open>^\<close> is tried first; group 1 takes no part in it and \<open>findall\<close> reports it as
  empty. Only when it fails is the alternative \<open>PREFIX(KEY)\<close> tried. The result is
  (group 1, group 2, rest of the subject after the match).
\<close>

definition match_here ::
  "units \<Rightarrow> keypat \<Rightarrow> bool \<Rightarrow> bool \<Rightarrow> units \<Rightarrow> (units \<times> units \<times> units) option" where
  "match_here P K bos must_advance s =
     (case (if bos then tail_match P K must_advance s else None) of
        Some (v, r) \<Rightarrow> Some ([], v, r)
      | None \<Rightarrow>
          (case strip_lit P s of
             None \<Rightarrow> None
           | Some s1 \<Rightarrow>
               (case match_key K s1 of
                  None \<Rightarrow> None
                | Some (k, s2) \<Rightarrow>
                    (case tail_match P K (must_advance \<and> length s2 = length s) s2 of
                       None \<Rightarrow> None
                     | Some (v, r) \<Rightarrow> Some (k, v, r)))))"

text \<open>A match never gives back more than it was given, which is why \<open>findall\<close> ends.\<close>

lemma strip_lit_length: "strip_lit P s = Some r \<Longrightarrow> length r + length P = length s"
  by (induction P s rule: strip_lit.induct) (auto split: if_splits)

lemma match_key_length: "match_key K s = Some (k, r) \<Longrightarrow> length r + length k = length s"
  by (cases "(K, s)" rule: match_key.cases)
     (auto split: if_splits option.splits dest: strip_lit_length)

lemma lazy_scan_length: "lazy_scan P K s = (v, r) \<Longrightarrow> length r + length v = length s"
  by (induction s arbitrary: v r) (auto split: if_splits prod.splits)

lemma tail_match_length:
  "tail_match P K rej s = Some (v, r) \<Longrightarrow>
     length r + length v = length s \<and> (rej \<longrightarrow> length r < length s)"
  by (cases "(P, K, rej, s)" rule: tail_match.cases)
     (auto split: prod.splits dest: lazy_scan_length)

lemma match_here_length:
  assumes "match_here P K bos ma s = Some (k, v, r)"
  shows "length r \<le> length s" and "ma \<Longrightarrow> length r < length s"
proof -
  have "length r \<le> length s \<and> (ma \<longrightarrow> length r < length s)"
  proof (cases "if bos then tail_match P K ma s else None")
    case (Some vr)
    with assms have "tail_match P K ma s = Some (v, r)"
      by (auto simp: match_here_def split: if_splits prod.splits)
    from tail_match_length [OF this] show ?thesis
      by auto
  next
    case None
    with assms obtain s1 s2 where
      s1: "strip_lit P s = Some s1" and
      s2: "match_key K s1 = Some (k, s2)" and
      t: "tail_match P K (ma \<and> length s2 = length s) s2 = Some (v, r)"
      by (auto simp: match_here_def split: option.splits prod.splits)
    from strip_lit_length [OF s1] match_key_length [OF s2] tail_match_length [OF t]
    show ?thesis
      by (cases "length s2 = length s") auto
  qed
  then show "length r \<le> length s" and "ma \<Longrightarrow> length r < length s"
    by simp_all
qed

text \<open>
  \<open>findall\<close>: search for the next match from the current position, at each position
  trying \<open>match_here\<close> and moving one unit to the right when it fails; the position at the
  end of the subject is tried too. After a match the search goes on where the match
  ended. \<open>must_advance\<close> is set when that match was empty and is dropped as soon as the
  search moves on.
\<close>

function findall_at ::
  "units \<Rightarrow> keypat \<Rightarrow> bool \<Rightarrow> bool \<Rightarrow> units \<Rightarrow> (units \<times> units) list" where
  "findall_at P K bos must_advance s =
     (case match_here P K bos must_advance s of
        Some (k, v, r) \<Rightarrow>
          (k, v) # findall_at P K (bos \<and> length r = length s) (length r = length s) r
      | None \<Rightarrow>
          (case s of
             [] \<Rightarrow> []
           | c # s' \<Rightarrow> findall_at P K False False s'))"
  by pat_completeness auto

termination
proof (relation "measure (\<lambda>(P, K, bos, ma, s). 2 * length s + (if ma then 0 else 1))")
  show "wf (measure (\<lambda>(P, K, bos, ma, s). 2 * length s + (if ma then 0 else 1)))"
    by simp
next
  fix P :: units and K :: keypat and bos must_advance s x2 k y v r
  assume "match_here P K bos must_advance s = Some x2" "(k, y) = x2" "(v, r) = y"
  then have m: "match_here P K bos must_advance s = Some (k, v, r)"
    by simp
  from match_here_length [OF m]
  show "((P, K, bos \<and> length r = length s, length r = length s, r), P, K, bos, must_advance, s)
        \<in> measure (\<lambda>(P, K, bos, ma, s). 2 * length s + (if ma then 0 else 1))"
    by (cases must_advance) auto
next
  fix P :: units and K :: keypat and bos must_advance :: bool and s :: units and c s'
  assume "s = c # s'"
  then show "((P, K, False, False, s'), P, K, bos, must_advance, s)
        \<in> measure (\<lambda>(P, K, bos, ma, s). 2 * length s + (if ma then 0 else 1))"
    by simp
qed

declare findall_at.simps [simp del]

text \<open>
  \<open>pattern.findall(field)\<close>: a \<open>TypeError\<close> when a \<open>str\<close> pattern meets a \<open>bytes\<close> field or
  the reverse; otherwise the list of the pairs (group 1, group 2), in the type of the
  field.
\<close>

definition re_findall :: "regex \<Rightarrow> pystr \<Rightarrow> error + (pystr \<times> pystr) list" where
  "re_findall rx field =
     (if rx_str rx = is_str field
      then Inr (map (\<lambda>(k, v). (retag (rx_str rx) k, retag (rx_str rx) v))
                  (findall_at (rx_prefix rx) (rx_key rx) True False (units_of field)))
      else Inl TypeError)"

section \<open>The class \<open>SubfieldParser\<close>\<close>

text \<open>
  The attributes set by \<open>__init__\<close> (lines 52 to 66). \<open>first\<close> is \<open>None\<close>, a \<open>str\<close> or a
  \<open>bytes\<close>; \<open>__init__\<close> stores it as it is given.
\<close>

record SubfieldParser =
  lower :: bool
  first :: "pystr option"
  empty :: bool
  number :: bool
  zero :: bool
  percent_d :: pystr
  subfields_regex :: regex

text \<open>
  \<open>__init__\<close> checks none of its arguments. It fails only if the formatting of line 65 or
  \<open>re.compile\<close> does.
  \<open>percent_d\<close> is \<open>"%d"\<close> for a \<open>str\<close> prefix and \<open>b"%d"\<close> otherwise.
\<close>

definition SubfieldParser_init ::
  "pystr \<Rightarrow> int \<Rightarrow> bool \<Rightarrow> pystr option \<Rightarrow> bool \<Rightarrow> bool \<Rightarrow> bool \<Rightarrow> error + SubfieldParser" where
  "SubfieldParser_init prefix length' lower' first' empty' number' zero' =
     (case re_compile prefix length' of
        Inl e \<Rightarrow> Inl e
      | Inr rx \<Rightarrow>
          Inr \<lparr>lower = lower', first = first', empty = empty', number = number', zero = zero',
               percent_d = retag (is_str prefix) (ascii ''%d''),
               subfields_regex = rx\<rparr>)"

text \<open>
  The body of the loop of \<open>__call__\<close>, statement by statement. Lines 73 and 74:
  \<open>if self.first and not key: key = self.first\<close>.
\<close>

definition first_key :: "SubfieldParser \<Rightarrow> pystr \<Rightarrow> pystr" where
  "first_key self key =
     (case first self of
        None \<Rightarrow> key
      | Some f \<Rightarrow> if truthy f \<and> \<not> truthy key then f else key)"

text \<open>Lines 75 and 76: \<open>if self.lower: key = key.lower()\<close>.\<close>

definition lower_key :: "(units \<Rightarrow> units) \<Rightarrow> SubfieldParser \<Rightarrow> pystr \<Rightarrow> pystr" where
  "lower_key str_lower self key = (if lower self then py_lower str_lower key else key)"

text \<open>
  Lines 77 to 80. \<open>key_count\<close> is a \<open>Counter\<close>: reading a key that is not there gives 0.
\<close>

definition number_key :: "SubfieldParser \<Rightarrow> (pystr \<Rightarrow> nat) \<Rightarrow> pystr \<Rightarrow> error + pystr" where
  "number_key self key_count key =
     (if number self
      then (let suffix_int = key_count key
            in if zero self \<or> suffix_int \<noteq> 0
               then py_add key (py_percent (percent_d self) (int suffix_int))
               else Inr key)
      else Inr key)"

text \<open>
  The loop over the pairs given by \<open>findall\<close> (lines 71 to 82), with the counter passed
  along. Line 82, \<open>key_count[key] += 1\<close>, runs after line 80 has rebound \<open>key\<close>: the key
  it counts is the key that was yielded, suffix included. The result is the list a
  consumer gets from \<open>list(parser(field))\<close>: an exception raised inside the generator
  reaches the consumer in place of the list.
\<close>

fun call_loop ::
  "(units \<Rightarrow> units) \<Rightarrow> SubfieldParser \<Rightarrow> (pystr \<Rightarrow> nat) \<Rightarrow> (pystr \<times> pystr) list
     \<Rightarrow> error + (pystr \<times> pystr) list" where
  "call_loop str_lower self key_count [] = Inr []"
| "call_loop str_lower self key_count ((key, value) # rest) =
     (if empty self \<or> truthy value
      then (case number_key self key_count (lower_key str_lower self (first_key self key)) of
              Inl e \<Rightarrow> Inl e
            | Inr key' \<Rightarrow>
                (case call_loop str_lower self (key_count(key' := key_count key' + 1)) rest of
                   Inl e \<Rightarrow> Inl e
                 | Inr out \<Rightarrow> Inr ((key', value) # out)))
      else call_loop str_lower self key_count rest)"

text \<open>\<open>__call__\<close>: line 70 creates an empty counter for this call.\<close>

definition SubfieldParser_call ::
  "(units \<Rightarrow> units) \<Rightarrow> SubfieldParser \<Rightarrow> pystr \<Rightarrow> error + (pystr \<times> pystr) list" where
  "SubfieldParser_call str_lower self field =
     (case re_findall (subfields_regex self) field of
        Inl e \<Rightarrow> Inl e
      | Inr segments \<Rightarrow> call_loop str_lower self (\<lambda>key. 0) segments)"

text \<open>Construction followed by one call: \<open>SubfieldParser(prefix, ...)(field)\<close>.\<close>

definition tokenize ::
  "(units \<Rightarrow> units) \<Rightarrow> pystr \<Rightarrow> int \<Rightarrow> bool \<Rightarrow> pystr option \<Rightarrow> bool \<Rightarrow> bool \<Rightarrow> bool \<Rightarrow> pystr
     \<Rightarrow> error + (pystr \<times> pystr) list" where
  "tokenize str_lower prefix length' lower' first' empty' number' zero' field =
     (case SubfieldParser_init prefix length' lower' first' empty' number' zero' of
        Inl e \<Rightarrow> Inl e
      | Inr self \<Rightarrow> SubfieldParser_call str_lower self field)"

section \<open>A call with the counter as an object\<close>

text \<open>
  \<open>SubfieldParser_call\<close> passes the counter along as a value. Here the same call is
  written with the objects it works on in a store: the parser, which \<open>__call__\<close> only
  reads, and the \<open>Counter\<close> objects created so far, a \<open>Counter\<close> being known by its
  position in the list. Line 70, \<open>key_count = Counter()\<close>, puts a new empty counter at
  the end of the list and binds the name \<open>key_count\<close> to its position; line 78 reads the
  counter at that position and line 82 updates it in place. Counters of earlier calls
  stay in the store.
\<close>

type_synonym counter = "pystr \<Rightarrow> nat"

record store =
  parser_obj :: SubfieldParser
  counters :: "counter list"

fun call_loop_store ::
  "(units \<Rightarrow> units) \<Rightarrow> SubfieldParser \<Rightarrow> nat \<Rightarrow> (pystr \<times> pystr) list \<Rightarrow> counter list
     \<Rightarrow> (error + (pystr \<times> pystr) list) \<times> counter list" where
  "call_loop_store str_lower self key_count [] cs = (Inr [], cs)"
| "call_loop_store str_lower self key_count ((key, value) # rest) cs =
     (if empty self \<or> truthy value
      then (case number_key self (cs ! key_count)
                   (lower_key str_lower self (first_key self key)) of
              Inl e \<Rightarrow> (Inl e, cs)
            | Inr key' \<Rightarrow>
                (case call_loop_store str_lower self key_count rest
                        (cs[key_count := (cs ! key_count)(key' := (cs ! key_count) key' + 1)]) of
                   (Inl e, cs') \<Rightarrow> (Inl e, cs')
                 | (Inr out, cs') \<Rightarrow> (Inr ((key', value) # out), cs')))
      else call_loop_store str_lower self key_count rest cs)"

text \<open>
  One call of the parser of the store on a field: the result, and the store after the
  call. The new counter is created first (line 70), also when \<open>findall\<close> then raises.
\<close>

definition invoke ::
  "(units \<Rightarrow> units) \<Rightarrow> pystr \<Rightarrow> store \<Rightarrow> (error + (pystr \<times> pystr) list) \<times> store" where
  "invoke str_lower field h =
     (let key_count = length (counters h);
          cs = counters h @ [\<lambda>key. 0]
      in case re_findall (subfields_regex (parser_obj h)) field of
           Inl e \<Rightarrow> (Inl e, h\<lparr>counters := cs\<rparr>)
         | Inr segments \<Rightarrow>
             (case call_loop_store str_lower (parser_obj h) key_count segments cs of
                (result, cs') \<Rightarrow> (result, h\<lparr>counters := cs'\<rparr>)))"

section \<open>Notions used to state the properties\<close>


text \<open>
  The field rebuilt from a list of pairs, as \<open>tests/test_fieldutils.py\<close> does it (lines
  138 to 141): the value of the first pair, then for every later pair the prefix, the
  key cut to \<open>length\<close> units (\<open>k[:length]\<close>) and the value. The test builds nothing from
  an empty list.
\<close>

definition slice_to :: "int \<Rightarrow> units \<Rightarrow> units" where
  "slice_to n k = (if 0 \<le> n then take (nat n) k else take (length k - nat (- n)) k)"

fun resynth :: "pystr \<Rightarrow> int \<Rightarrow> (pystr \<times> pystr) list \<Rightarrow> units option" where
  "resynth prefix n [] = None"
| "resynth prefix n ((k0, v0) # rest) =
     Some (units_of v0 @
           concat (map (\<lambda>(k, v). units_of prefix @ slice_to n (units_of k) @ units_of v) rest))"




section \<open>How a match divides the subject\<close>
















section \<open>The number of pairs\<close>




section \<open>Numbering of repeated keys\<close>

text \<open>
  Claim C1 at the input of the test \<open>length_0_keep_empty\<close>: marker \<open>a\<close>, \<open>length=0\<close>,
  \<open>empty=True\<close>, field \<open>data\<close>. The empty key occurs three times. The test expects the
  keys \<open>""\<close>, \<open>"1"\<close>, \<open>"2"\<close>; the code gives \<open>""\<close>, \<open>"1"\<close>, \<open>"1"\<close>, because line 82 counts
  the key with its suffix and the counter of the bare key stays at 1. With \<open>zero=True\<close>
  (test \<open>length_0_keep_empty_zero\<close>, expected \<open>"0"\<close>, \<open>"1"\<close>, \<open>"2"\<close>) every key is \<open>"0"\<close>.
\<close>

theorem numbering_repeats_suffix_stuck:
  "tokenize (\<lambda>u. u) (Str (ascii ''a'')) 0 False None True True False (Str (ascii ''data''))
     = Inr [(Str [], Str (ascii ''d'')), (Str (ascii ''1''), Str (ascii ''t'')),
            (Str (ascii ''1''), Str [])]
   \<and> tokenize (\<lambda>u. u) (Str (ascii ''a'')) 0 False None True True True (Str (ascii ''data''))
     = Inr [(Str (ascii ''0''), Str (ascii ''d'')), (Str (ascii ''0''), Str (ascii ''t'')),
            (Str (ascii ''0''), Str [])]"
  by code_simp

section \<open>The key slot\<close>











lemma units_of_retag [simp]: "units_of (retag b u) = u"
  by (cases b) simp_all





section \<open>Errors\<close>

lemma is_str_retag [simp]: "is_str (retag b u) = b"
  by (cases b) simp_all

lemma is_str_py_lower [simp]: "is_str (py_lower sl k) = is_str k"
  by (cases k) simp_all

lemma is_str_py_percent [simp]: "is_str (py_percent t i) = is_str t"
  by (cases t) simp_all

lemma py_add_same: "is_str a = is_str b \<Longrightarrow> \<exists>c. py_add a b = Inr c \<and> is_str c = is_str a"
  by (cases a; cases b) simp_all

lemma py_add_error: "py_add a b = Inl e \<Longrightarrow> e = TypeError"
  by (cases a; cases b) simp_all

lemma number_key_same:
  "is_str key = is_str (percent_d self) \<Longrightarrow> \<exists>key'. number_key self kc key = Inr key'"
  using py_add_same [of key "py_percent (percent_d self) (int (kc key))"]
  by (auto simp: number_key_def Let_def)

lemma number_key_error: "number_key self kc key = Inl e \<Longrightarrow> e = TypeError"
  by (auto simp: number_key_def Let_def split: if_splits dest: py_add_error)

lemma call_loop_error: "call_loop sl self kc segs = Inl e \<Longrightarrow> e = TypeError"
proof (induction segs arbitrary: kc)
  case Nil
  then show ?case by simp
next
  case (Cons seg segs)
  obtain key val where seg: "seg = (key, val)" by (cases seg)
  from Cons.prems show ?case
    unfolding seg
    by (auto split: if_splits sum.splits dest: number_key_error Cons.IH)
qed

lemma call_loop_total:
  assumes "\<forall>(k, v) \<in> set segs. is_str k = is_str (percent_d self)"
    and "\<forall>f. first self = Some f \<longrightarrow> is_str f = is_str (percent_d self)"
  shows "\<exists>out. call_loop sl self kc segs = Inr out"
  using assms(1)
proof (induction segs arbitrary: kc)
  case Nil
  then show ?case by simp
next
  case (Cons seg segs)
  obtain key val where seg: "seg = (key, val)" by (cases seg)
  from Cons.prems seg have key: "is_str key = is_str (percent_d self)" by simp
  have "is_str (first_key self key) = is_str (percent_d self)"
    using key assms(2) by (auto simp: first_key_def split: option.splits)
  then have "is_str (lower_key sl self (first_key self key)) = is_str (percent_d self)"
    by (simp add: lower_key_def)
  from number_key_same [OF this] obtain key' where
    nk: "number_key self kc (lower_key sl self (first_key self key)) = Inr key'"
    by blast
  from Cons.prems have rest: "\<forall>(k, v) \<in> set segs. is_str k = is_str (percent_d self)"
    by simp
  from Cons.IH [OF rest] obtain out1 out2 where
    "call_loop sl self kc segs = Inr out1"
    "call_loop sl self (kc(key' := kc key' + 1)) segs = Inr out2"
    by blast
  with nk seg show ?case
    by simp
qed

text \<open>
  Claim C7, as the code has it. When \<open>first\<close>, if given, has the type of the prefix, and
  the field has the type of the prefix, a call on a constructed parser returns a list of
  pairs: it raises nothing. (\<open>findall_at\<close> is a total function, so the call also ends.)
\<close>

theorem call_never_raises:
  assumes "SubfieldParser_init prefix n lw fk emp num zr = Inr self"
    and "\<forall>f. fk = Some f \<longrightarrow> is_str f = is_str prefix"
    and "is_str field = is_str prefix"
  shows "\<exists>out. SubfieldParser_call sl self field = Inr out"
proof -
  from assms(1) have attrs:
    "first self = fk" "is_str (percent_d self) = is_str prefix"
    "rx_str (subfields_regex self) = is_str prefix"
    by (auto simp: SubfieldParser_init_def re_compile_def split: sum.splits)
  define segs where "segs = map (\<lambda>(k, v). (retag (is_str prefix) k, retag (is_str prefix) v))
      (findall_at (rx_prefix (subfields_regex self)) (rx_key (subfields_regex self)) True False
         (units_of field))"
  have found: "re_findall (subfields_regex self) field = Inr segs"
    using attrs assms(3) by (simp add: re_findall_def segs_def)
  have "\<forall>(k, v) \<in> set segs. is_str k = is_str (percent_d self)"
    using attrs by (auto simp: segs_def)
  moreover have "\<forall>f. first self = Some f \<longrightarrow> is_str f = is_str (percent_d self)"
    using attrs assms(2) by simp
  ultimately obtain out where "call_loop sl self (\<lambda>key. 0) segs = Inr out"
    using call_loop_total by blast
  with found show ?thesis
    by (simp add: SubfieldParser_call_def)
qed

text \<open>A parser for \<open>bytes\<close> with \<open>first=b"_"\<close>, called on \<open>b"data^ttext"\<close>.\<close>

theorem call_never_raises_witness:
  "SubfieldParser_init (Bytes (ascii ''^'')) 1 False (Some (Bytes (ascii ''_''))) False True True
     = Inr \<lparr>lower = False, first = Some (Bytes (ascii ''_'')), empty = False, number = True,
            zero = True, percent_d = Bytes (ascii ''%d''),
            subfields_regex = \<lparr>rx_str = False, rx_prefix = ascii ''^'', rx_key = Repeat 1\<rparr>\<rparr>
   \<and> is_str (Bytes (ascii ''_'')) = is_str (Bytes (ascii ''^''))
   \<and> is_str (Bytes (ascii ''data^ttext'')) = is_str (Bytes (ascii ''^''))
   \<and> (\<exists>out. SubfieldParser_call (\<lambda>u. u)
          \<lparr>lower = False, first = Some (Bytes (ascii ''_'')), empty = False, number = True,
           zero = True, percent_d = Bytes (ascii ''%d''),
           subfields_regex = \<lparr>rx_str = False, rx_prefix = ascii ''^'', rx_key = Repeat 1\<rparr>\<rparr>
          (Bytes (ascii ''data^ttext'')) = Inr out)"
proof -
  let ?self = "\<lparr>lower = False, first = Some (Bytes (ascii ''_'')), empty = False, number = True,
                zero = True, percent_d = Bytes (ascii ''%d''),
                subfields_regex = \<lparr>rx_str = False, rx_prefix = ascii ''^'', rx_key = Repeat 1\<rparr>\<rparr>"
  have h1: "SubfieldParser_init (Bytes (ascii ''^'')) 1 False (Some (Bytes (ascii ''_''))) False
              True True = Inr ?self"
    by code_simp
  have h2: "\<forall>f. Some (Bytes (ascii ''_'')) = Some f \<longrightarrow> is_str f = is_str (Bytes (ascii ''^''))"
    by simp
  have h3: "is_str (Bytes (ascii ''data^ttext'')) = is_str (Bytes (ascii ''^''))"
    by simp
  from call_never_raises [OF h1 h2 h3, of "\<lambda>u. u"] h1 show ?thesis
    by simp
qed

text \<open>
  Claim C7 as stated fails: construction accepts a \<open>first\<close> of the other type, and the
  call then raises a \<open>TypeError\<close> at line 80, where the \<open>bytes\<close> suffix \<open>b"0"\<close> is added to
  the \<open>str\<close> key \<open>"_"\<close>. Here: \<open>SubfieldParser(b"^", first="_", zero=True)(b"data")\<close>.
\<close>

theorem call_raises_counterexample:
  "\<not> isl (SubfieldParser_init (Bytes (ascii ''^'')) 1 False (Some (Str (ascii ''_''))) False True True)
   \<and> tokenize (\<lambda>u. u) (Bytes (ascii ''^'')) 1 False (Some (Str (ascii ''_''))) False True True
       (Bytes (ascii ''data'')) = Inl TypeError"
  by code_simp

text \<open>
  Claim C3, as the code has it. Construction never raises a \<open>ConfigurationError\<close>, and
  neither does a call. \<open>__init__\<close> checks neither the marker, nor the sign of \<open>length\<close>,
  nor the type of \<open>first\<close>: whatever the marker and \<open>first\<close> are, construction succeeds
  for every \<open>length\<close> below \<open>MAXREPEAT\<close> of at most 4300 digits, negative ones included.
\<close>

theorem construction_accepts:
  "SubfieldParser_init prefix n lw fk emp num zr \<noteq> Inl ConfigurationError
   \<and> SubfieldParser_call sl self field \<noteq> Inl ConfigurationError
   \<and> (n < MAXREPEAT \<and> length (digits (nat \<bar>n\<bar>)) \<le> int_max_str_digits
        \<longrightarrow> \<not> isl (SubfieldParser_init prefix n lw fk emp num zr))"
proof -
  have "SubfieldParser_call sl self field \<noteq> Inl ConfigurationError"
    by (auto simp: SubfieldParser_call_def re_findall_def split: sum.splits if_splits
             dest: call_loop_error)
  moreover have "SubfieldParser_init prefix n lw fk emp num zr \<noteq> Inl ConfigurationError"
    by (auto simp: SubfieldParser_init_def re_compile_def key_pattern_def format_d_def
             split: sum.splits if_splits)
  moreover have "\<not> isl (SubfieldParser_init prefix n lw fk emp num zr)"
    if "n < MAXREPEAT" and "length (digits (nat \<bar>n\<bar>)) \<le> int_max_str_digits"
    using that
    by (auto simp: SubfieldParser_init_def re_compile_def key_pattern_def format_d_def
             split: sum.splits if_splits)
  ultimately show ?thesis by blast
qed

text \<open>
  Construction with the empty marker, \<open>length=-1\<close> and a \<open>str\<close> \<open>first\<close> for a \<open>bytes\<close>
  marker, all at once.
\<close>

theorem construction_accepts_witness:
  "(- 1 < MAXREPEAT \<and> length (digits (nat \<bar>- 1\<bar>)) \<le> int_max_str_digits)
   \<and> \<not> isl (SubfieldParser_init (Bytes []) (- 1) False (Some (Str (ascii ''_''))) False True False)
   \<and> SubfieldParser_init (Bytes []) (- 1) False (Some (Str (ascii ''_''))) False True False
       \<noteq> Inl ConfigurationError"
proof -
  have h: "- 1 < MAXREPEAT \<and> length (digits (nat \<bar>- 1\<bar>)) \<le> int_max_str_digits"
    by code_simp
  from construction_accepts [of "Bytes []" "- 1" False "Some (Str (ascii ''_''))" False True False]
    h show ?thesis
    by blast
qed

text \<open>
  Claim C3 as stated fails: an empty marker, the key length \<open>-1\<close> and a \<open>str\<close> \<open>first\<close>
  with a \<open>bytes\<close> marker are each accepted by \<open>__init__\<close>.
\<close>

theorem construction_counterexample:
  "\<not> isl (SubfieldParser_init (Bytes []) 1 False None False True False)
   \<and> \<not> isl (SubfieldParser_init (Bytes (ascii ''^'')) (- 1) False None False True False)
   \<and> \<not> isl (SubfieldParser_init (Bytes (ascii ''^'')) 1 False (Some (Str (ascii ''_''))) False True False)"
  by code_simp

section \<open>The key of the leading value\<close>

lemma first_key_empty:
  "\<not> truthy e \<Longrightarrow> first_key (self\<lparr>first := Some e\<rparr>) key = first_key (self\<lparr>first := None\<rparr>) key"
  by (simp add: first_key_def)

lemma lower_key_first: "lower_key sl (self\<lparr>first := x\<rparr>) key = lower_key sl self key"
  by (simp add: lower_key_def)

lemma number_key_first: "number_key (self\<lparr>first := x\<rparr>) kc key = number_key self kc key"
  by (simp add: number_key_def Let_def)

lemma call_loop_first_empty:
  assumes "\<not> truthy e"
  shows "call_loop sl (self\<lparr>first := Some e\<rparr>) kc segs
           = call_loop sl (self\<lparr>first := None\<rparr>) kc segs"
proof (induction segs arbitrary: kc)
  case Nil
  show ?case by simp
next
  case (Cons seg segs)
  obtain key val where seg: "seg = (key, val)" by (cases seg)
  have e: "SubfieldParser.empty (self\<lparr>first := x\<rparr>) = SubfieldParser.empty self" for x
    by simp
  show ?case
    unfolding seg call_loop.simps first_key_empty [OF assms] lower_key_first number_key_first
      Cons.IH e ..
qed

text \<open>
  Claim C10. A parser built with \<open>first=""\<close> or \<open>first=b""\<close> gives, on every field, what
  the parser built with \<open>first=None\<close> gives: line 73 tests the truth value of
  \<open>self.first\<close>, which is false for both.
\<close>

theorem empty_first_is_unset:
  "tokenize sl prefix n lw (Some (Str [])) emp num zr field
     = tokenize sl prefix n lw None emp num zr field
   \<and> tokenize sl prefix n lw (Some (Bytes [])) emp num zr field
     = tokenize sl prefix n lw None emp num zr field"
proof -
  have "tokenize sl prefix n lw (Some e) emp num zr field
          = tokenize sl prefix n lw None emp num zr field" if "\<not> truthy e" for e
  proof (cases "re_compile prefix n")
    case (Inl err)
    then show ?thesis by (simp add: tokenize_def SubfieldParser_init_def)
  next
    case (Inr rx)
    define self where "self = \<lparr>lower = lw, first = None, empty = emp, number = num, zero = zr,
        percent_d = retag (is_str prefix) (ascii ''%d''), subfields_regex = rx\<rparr>"
    have a: "SubfieldParser_init prefix n lw (Some e) emp num zr = Inr (self\<lparr>first := Some e\<rparr>)"
      and b: "SubfieldParser_init prefix n lw None emp num zr = Inr (self\<lparr>first := None\<rparr>)"
      using Inr by (simp_all add: SubfieldParser_init_def self_def)
    show ?thesis
      using call_loop_first_empty [OF that, of sl self]
      by (simp add: tokenize_def a b SubfieldParser_call_def split: sum.splits)
  qed
  then show ?thesis by simp
qed

text \<open>
  Claim C2 at two inputs. With \<open>length=0\<close> every key slot is empty, and the second pair
  of \<open>data\<close> (marker \<open>a\<close>, \<open>first="_"\<close>) gets the key \<open>_\<close> too, numbered \<open>_1\<close>. At the
  input of the test \<open>first_empty\<close> (marker \<open>i\<close>, \<open>first="1"\<close>, \<open>empty=True\<close>, field
  \<open>ioisis test\<close>) the second pair is matched through \<open>^\<close> once more, has an empty key
  slot and gets the key \<open>1\<close>, numbered \<open>11\<close>; the test expects
  \<open>[("1", ""), ("o", ""), ("s", ""), ("s1", " test")]\<close>.
\<close>

theorem first_key_on_later_pairs:
  "tokenize (\<lambda>u. u) (Str (ascii ''a'')) 0 False (Some (Str (ascii ''_''))) False True False
     (Str (ascii ''data''))
     = Inr [(Str (ascii ''_''), Str (ascii ''d'')), (Str (ascii ''_1''), Str (ascii ''t''))]
   \<and> tokenize (\<lambda>u. u) (Str (ascii ''i'')) 1 False (Some (Str (ascii ''1''))) True True False
     (Str (ascii ''ioisis test''))
     = Inr [(Str (ascii ''1''), Str []), (Str (ascii ''11''), Str (ascii ''io'')),
            (Str (ascii ''s''), Str []), (Str (ascii ''s1''), Str (ascii '' test''))]"
  by code_simp

section \<open>Rebuilding the field\<close>

text \<open>
  Claim C4 at the field of the test \<open>first_empty_no_number\<close>, without \<open>first\<close>: marker
  \<open>i\<close>, \<open>empty=True\<close>, \<open>number=False\<close>, field \<open>ioisis test\<close>. After the empty match at the
  start, \<open>findall\<close> matches through \<open>^\<close> again and the value \<open>io\<close> swallows the first
  marker; the pairs rebuild \<open>iioisis test\<close>, not the field. And a field that ends in a
  newline loses it: \<open>data\<close> followed by a newline gives the one pair \<open>("", "data")\<close>.
\<close>

theorem resynth_differs:
  "tokenize (\<lambda>u. u) (Str (ascii ''i'')) 1 False None True False False (Str (ascii ''ioisis test''))
     = Inr [(Str [], Str []), (Str [], Str (ascii ''io'')), (Str (ascii ''s''), Str []),
            (Str (ascii ''s''), Str (ascii '' test''))]
   \<and> resynth (Str (ascii ''i'')) 1
        [(Str [], Str []), (Str [], Str (ascii ''io'')), (Str (ascii ''s''), Str []),
         (Str (ascii ''s''), Str (ascii '' test''))]
     = Some (ascii ''iioisis test'')
   \<and> ascii ''iioisis test'' \<noteq> ascii ''ioisis test''
   \<and> tokenize (\<lambda>u. u) (Str (ascii ''^'')) 1 False None True False False
        (Str (ascii ''data'' @ [newline]))
     = Inr [(Str [], Str (ascii ''data''))]
   \<and> resynth (Str (ascii ''^'')) 1 [(Str [], Str (ascii ''data''))] = Some (ascii ''data'')"
  by code_simp

section \<open>Newlines\<close>

text \<open>
  Claim C9 at a field that ends in a newline. Inside a field a newline is a unit like any
  other (\<open>re.DOTALL\<close>): the value \<open>c\<close>, newline, \<open>d\<close> below keeps it, and a key slot can be
  a newline. At the end of the field it is not: \<open>$\<close> also matches before a final newline,
  so the value \<open>data\<close> stops there and the newline is in no pair, where the same field
  ending in a space keeps the space. The field made of one newline gives two pairs with
  \<open>empty=True\<close>, the field made of one space gives one.
\<close>

theorem final_newline_lost:
  "tokenize (\<lambda>u. u) (Bytes (ascii ''^'')) 1 False None False True False
     (Bytes (ascii ''ab^'' @ [newline] @ ascii ''c'' @ [newline] @ ascii ''d''))
     = Inr [(Bytes [], Bytes (ascii ''ab'')),
            (Bytes [newline], Bytes (ascii ''c'' @ [newline] @ ascii ''d''))]
   \<and> tokenize (\<lambda>u. u) (Bytes (ascii ''^'')) 1 False None False True False
        (Bytes (ascii ''data'' @ [newline]))
     = Inr [(Bytes [], Bytes (ascii ''data''))]
   \<and> tokenize (\<lambda>u. u) (Bytes (ascii ''^'')) 1 False None False True False
        (Bytes (ascii ''data ''))
     = Inr [(Bytes [], Bytes (ascii ''data ''))]
   \<and> tokenize (\<lambda>u. u) (Bytes (ascii ''^'')) 1 False None True False False (Bytes [newline])
     = Inr [(Bytes [], Bytes []), (Bytes [], Bytes [newline])]
   \<and> tokenize (\<lambda>u. u) (Bytes (ascii ''^'')) 1 False None True False False (Bytes (ascii '' ''))
     = Inr [(Bytes [], Bytes (ascii '' ''))]"
  by code_simp

section \<open>Two calls\<close>

text \<open>
  The loop in the store does what \<open>call_loop\<close> does from the counter it is given, and
  touches no other counter.
\<close>

lemma call_loop_store_sim:
  "a < length cs \<Longrightarrow>
     fst (call_loop_store sl self a segs cs) = call_loop sl self (cs ! a) segs
     \<and> length (snd (call_loop_store sl self a segs cs)) = length cs
     \<and> take a (snd (call_loop_store sl self a segs cs)) = take a cs"
proof (induction segs arbitrary: cs)
  case Nil
  show ?case by simp
next
  case (Cons seg segs)
  obtain key val where seg: "seg = (key, val)" by (cases seg)
  show ?case
  proof (cases "empty self \<or> truthy val")
    case False
    with Cons.IH [OF Cons.prems] seg show ?thesis by simp
  next
    case True
    let ?k = "lower_key sl self (first_key self key)"
    show ?thesis
    proof (cases "number_key self (cs ! a) ?k")
      case (Inl e)
      with True seg show ?thesis by simp
    next
      case (Inr key')
      define kc1 where "kc1 = (cs ! a)(key' := (cs ! a) key' + 1)"
      from Cons.prems have a1: "a < length (cs[a := kc1])" by simp
      from Cons.prems have at: "cs[a := kc1] ! a = kc1" by simp
      obtain res cs' where run: "call_loop_store sl self a segs (cs[a := kc1]) = (res, cs')"
        by (cases "call_loop_store sl self a segs (cs[a := kc1])")
      from Cons.IH [OF a1] run have
        res: "res = call_loop sl self kc1 segs" and
        len: "length cs' = length cs" and
        old: "take a cs' = take a cs"
        unfolding at by simp_all
      have step: "call_loop_store sl self a (seg # segs) cs
          = (case res of Inl e \<Rightarrow> (Inl e, cs') | Inr out \<Rightarrow> (Inr ((key', val) # out), cs'))"
        using True Inr run unfolding seg kc1_def
        by (cases res) simp_all
      have loop: "call_loop sl self (cs ! a) (seg # segs)
          = (case res of Inl e \<Rightarrow> Inl e | Inr out \<Rightarrow> Inr ((key', val) # out))"
        using True Inr unfolding seg res kc1_def
        by simp
      from step loop len old show ?thesis
        by (cases res) simp_all
    qed
  qed
qed

lemma invoke_result:
  "fst (invoke sl field h) = SubfieldParser_call sl (parser_obj h) field
   \<and> parser_obj (snd (invoke sl field h)) = parser_obj h
   \<and> length (counters (snd (invoke sl field h))) = Suc (length (counters h))
   \<and> take (length (counters h)) (counters (snd (invoke sl field h))) = counters h"
proof (cases "re_findall (subfields_regex (parser_obj h)) field")
  case (Inl e)
  then show ?thesis
    by (simp add: invoke_def SubfieldParser_call_def)
next
  case (Inr segments)
  let ?cs = "counters h @ [\<lambda>key. 0]"
  have a: "length (counters h) < length ?cs" by simp
  obtain res cs' where run:
    "call_loop_store sl (parser_obj h) (length (counters h)) segments ?cs = (res, cs')"
    by (cases "call_loop_store sl (parser_obj h) (length (counters h)) segments ?cs")
  from call_loop_store_sim [OF a, of sl "parser_obj h" segments] run
  have "res = call_loop sl (parser_obj h) (\<lambda>key. 0) segments"
    and "length cs' = Suc (length (counters h))"
    and "take (length (counters h)) cs' = counters h"
    by simp_all
  with Inr run show ?thesis
    by (simp add: invoke_def SubfieldParser_call_def)
qed

text \<open>
  The loop does read its counter: started from a counter in which the key \<open>t\<close> has
  already been counted once, it numbers the key, where from an empty counter it does
  not. A call that went on with the counter of an earlier call would give other pairs.
\<close>

lemma loop_reads_counter:
  "call_loop (\<lambda>u. u)
     \<lparr>lower = False, first = None, empty = False, number = True, zero = False,
      percent_d = Str (ascii ''%d''),
      subfields_regex = \<lparr>rx_str = True, rx_prefix = ascii ''^'', rx_key = Repeat 1\<rparr>\<rparr>
     (\<lambda>key. 0) [(Str (ascii ''t''), Str (ascii ''x''))]
     = Inr [(Str (ascii ''t''), Str (ascii ''x''))]
   \<and> call_loop (\<lambda>u. u)
     \<lparr>lower = False, first = None, empty = False, number = True, zero = False,
      percent_d = Str (ascii ''%d''),
      subfields_regex = \<lparr>rx_str = True, rx_prefix = ascii ''^'', rx_key = Repeat 1\<rparr>\<rparr>
     ((\<lambda>key. 0)(Str (ascii ''t'') := 1)) [(Str (ascii ''t''), Str (ascii ''x''))]
     = Inr [(Str (ascii ''t1''), Str (ascii ''x''))]"
  by code_simp

text \<open>
  Claim C8. From any store, whatever counters earlier calls have left in it: a call on
  a field, then a second call on the same field from the store the first one left, give
  the same result; so does a call that follows a call on any other field. The result is
  the one \<open>SubfieldParser_call\<close> computes from the parser and the field alone, starting
  from an empty counter. The call leaves the parser as it was, adds exactly one counter
  to the store, its own, and changes none of the counters that were there.
\<close>

theorem calls_independent:
  "fst (invoke sl field (snd (invoke sl field h))) = fst (invoke sl field h)
   \<and> fst (invoke sl field (snd (invoke sl other h))) = fst (invoke sl field h)
   \<and> fst (invoke sl field h) = SubfieldParser_call sl (parser_obj h) field
   \<and> parser_obj (snd (invoke sl field h)) = parser_obj h
   \<and> length (counters (snd (invoke sl field h))) = Suc (length (counters h))
   \<and> take (length (counters h)) (counters (snd (invoke sl field h))) = counters h"
proof -
  have same: "fst (invoke sl field (snd (invoke sl f h))) = fst (invoke sl field h)" for f
    using invoke_result [of sl field "snd (invoke sl f h)"] invoke_result [of sl f h]
      invoke_result [of sl field h]
    by simp
  from same [of field] same [of other] invoke_result [of sl field h] show ?thesis
    by simp
qed

end
